theory Spec2Isabelle
  imports Main "HOL-Library.Sublist" "HOL-Library.Char_ord" "HOL-Library.List_Lexorder"
begin

section \<open>Python values, exceptions and string primitives\<close>

text \<open>
  Strings are lists of characters with code points below 256. An exception is a value
  carrying its class and the text that \<^verbatim>\<open>str(e)\<close> gives. A handler
  \<^verbatim>\<open>except Exception\<close> catches every class but \<^verbatim>\<open>KeyboardInterrupt\<close>,
  which derives from \<^verbatim>\<open>BaseException\<close> only.
\<close>

datatype exn_class =
    ValueError | IndexError | UnboundLocalError | TIMEOUT | EOF
  | TimeoutExpired | SessionNotFoundError | OtherException | KeyboardInterrupt

datatype exn = Raise exn_class string

fun class_of :: "exn \<Rightarrow> exn_class" where
  "class_of (Raise c m) = c"

fun str_exn :: "exn \<Rightarrow> string" where
  "str_exn (Raise c m) = m"

definition is_Exception :: "exn \<Rightarrow> bool" where
  "is_Exception e = (class_of e \<noteq> KeyboardInterrupt)"

datatype pyval = PyNone | PyStr string | PyBool bool | PyInt int

type_synonym pydict = "string \<rightharpoonup> pyval"

text \<open>\<^verbatim>\<open>sub in s\<close> on strings: \<open>sub\<close> occurs in \<open>s\<close> as a contiguous run.\<close>

fun str_contains :: "string \<Rightarrow> string \<Rightarrow> bool" where
  "str_contains sub [] = (sub = [])"
| "str_contains sub (c # cs) = (prefix sub (c # cs) \<or> str_contains sub cs)"

text \<open>
  \<^verbatim>\<open>str.isspace\<close> on one character below 256: tab to carriage return, the four
  separators 0x1c to 0x1f, space, 0x85 and 0xa0.
\<close>

definition py_isspace :: "char \<Rightarrow> bool" where
  "py_isspace c =
     (let n = (of_char c :: nat)
      in (9 \<le> n \<and> n \<le> 13) \<or> (28 \<le> n \<and> n \<le> 32) \<or> n = 133 \<or> n = 160)"

text \<open>\<^verbatim>\<open>s.split()\<close>: the maximal runs of characters that are not whitespace.\<close>

fun split_from :: "string \<Rightarrow> string \<Rightarrow> string list" where
  "split_from cur [] = (if cur = [] then [] else [cur])"
| "split_from cur (c # cs) =
     (if py_isspace c then (if cur = [] then split_from [] cs else cur # split_from [] cs)
      else split_from (cur @ [c]) cs)"

definition py_split :: "string \<Rightarrow> string list" where
  "py_split s = split_from [] s"

text \<open>\<^verbatim>\<open>str(xs)\<close> of a list of strings that hold no quote and no escape.\<close>

definition repr_str :: "string \<Rightarrow> string" where
  "repr_str s = [CHR 0x27] @ s @ [CHR 0x27]"

fun join_with :: "string \<Rightarrow> string list \<Rightarrow> string" where
  "join_with sep [] = []"
| "join_with sep [x] = x"
| "join_with sep (x # y # ys) = x @ sep @ join_with sep (y # ys)"

definition str_list :: "string list \<Rightarrow> string" where
  "str_list xs = ''['' @ join_with '', '' (map repr_str xs) @ '']''"

text \<open>\<^verbatim>\<open>str(n)\<close> of a natural number, and of an optional integer (an exit status).\<close>

definition digit_char :: "nat \<Rightarrow> char" where
  "digit_char d = ''0123456789'' ! d"

function str_nat :: "nat \<Rightarrow> string" where
  "str_nat n = (if n < 10 then [digit_char n] else str_nat (n div 10) @ [digit_char (n mod 10)])"
  by pat_completeness auto
termination
  by (relation "measure id") auto

declare str_nat.simps [simp del]

definition str_int :: "int \<Rightarrow> string" where
  "str_int i = (if i < 0 then ''-'' @ str_nat (nat (- i)) else str_nat (nat i))"

fun str_status :: "int option \<Rightarrow> string" where
  "str_status None = ''None''"
| "str_status (Some i) = str_int i"

section \<open>Configuration\<close>

text \<open>\<^verbatim>\<open>SAFE_COMMANDS\<close> of mcp_tools.py and \<^verbatim>\<open>SANDBOX_MODE\<close> of config.py.\<close>

definition SAFE_COMMANDS :: "string list" where
  "SAFE_COMMANDS =
     [''ls'', ''pwd'', ''echo'', ''cat'', ''head'', ''tail'', ''grep'', ''find'',
      ''python'', ''python3'', ''chmod'', ''cd'', ''pytest'']"

definition SANDBOX_MODE :: bool where
  "SANDBOX_MODE = True"

text \<open>
  \<^verbatim>\<open>any(cmd in text for cmd in safe_commands)\<close>, the test both command gates apply,
  each to a text of its own.
\<close>

definition any_safe_in :: "string \<Rightarrow> bool" where
  "any_safe_in text = list_ex (\<lambda>cmd. str_contains cmd text) SAFE_COMMANDS"

definition sandbox_error :: pydict where
  "sandbox_error =
     [''error'' \<mapsto> PyStr (''The command you executed is not allowed in sandbox mode; Safe command list: ''
        @ str_list SAFE_COMMANDS)]"

section \<open>run_system_command\<close>

text \<open>
  \<^verbatim>\<open>subprocess.run\<close> is a parameter: it returns the completed process
  (stdout, stderr, return code) or raises. \<open>execute_command\<close> is the
  \<^verbatim>\<open>try\<close> block that follows the gate.
\<close>

datatype completed = Completed string string int

definition execute_command :: "(string \<Rightarrow> exn + completed) \<Rightarrow> string \<Rightarrow> exn + pydict" where
  "execute_command subprocess_run command =
     (case subprocess_run command of
        Inr (Completed out err rc) \<Rightarrow>
          Inr [''stdout'' \<mapsto> PyStr out, ''stderr'' \<mapsto> PyStr err, ''return_code'' \<mapsto> PyInt rc]
      | Inl e \<Rightarrow>
          if class_of e = TimeoutExpired then Inr [''error'' \<mapsto> PyStr ''Command execution timeout'']
          else if is_Exception e
            then Inr [''error'' \<mapsto> PyStr (''Command execution failed: '' @ str_exn e)]
          else Inl e)"

definition run_system_command :: "(string \<Rightarrow> exn + completed) \<Rightarrow> string \<Rightarrow> exn + pydict" where
  "run_system_command subprocess_run command =
     (if SANDBOX_MODE \<and> \<not> any_safe_in command then Inr sandbox_error
      else execute_command subprocess_run command)"

section \<open>The interactive shell tools\<close>

text \<open>
  \<^verbatim>\<open>step\<close> and \<^verbatim>\<open>terminate\<close> come from the module
  \<^verbatim>\<open>code_eval_agent.interative_shell\<close>; the tools only call them. \<open>step\<close> is a
  parameter taking the keyword arguments \<open>cmd\<close>, \<open>session_id\<close> and \<open>user_input\<close>.
  The attribute \<^verbatim>\<open>python_env_state\<close> of the tool context is a dictionary from
  session ids to the interpreter flag; \<open>None\<close> stands for a context that has no such
  attribute yet.
\<close>

type_synonym session_key = "string option"
type_synonym env_state = "session_key \<rightharpoonup> bool"
type_synonym step_fn = "string option \<Rightarrow> session_key \<Rightarrow> string option \<Rightarrow> exn + pydict"

fun pyval_of_key :: "session_key \<Rightarrow> pyval" where
  "pyval_of_key None = PyNone"
| "pyval_of_key (Some s) = PyStr s"

definition start_interative_shell :: "step_fn \<Rightarrow> string \<Rightarrow> exn + pydict" where
  "start_interative_shell step cmd =
     (let session_id = None
      in case step (Some cmd) None None of
           Inr result \<Rightarrow> Inr result
         | Inl e \<Rightarrow>
             if is_Exception e then
               Inr [''error'' \<mapsto> PyStr (str_exn e),
                    ''session_id'' \<mapsto> pyval_of_key session_id,
                    ''output'' \<mapsto> pyval_of_key session_id,
                    ''waiting'' \<mapsto> PyBool False,
                    ''finished'' \<mapsto> PyBool True]
             else Inl e)"

text \<open>The part of run_interactive_shell after the gate: the flag update, then the step.\<close>

definition update_env_state :: "env_state \<Rightarrow> session_key \<Rightarrow> string option \<Rightarrow> env_state" where
  "update_env_state session_state session_id user_input =
     (case user_input of
        None \<Rightarrow> session_state
      | Some u \<Rightarrow>
          if u \<noteq> [] \<and> prefix ''python'' u then session_state(session_id \<mapsto> True)
          else if u = ''exit'' then session_state(session_id \<mapsto> False)
          else session_state)"

definition guarded_step :: "step_fn \<Rightarrow> session_key \<Rightarrow> string option \<Rightarrow> exn + pydict" where
  "guarded_step step session_id user_input =
     (case step None session_id user_input of
        Inr result \<Rightarrow> Inr result
      | Inl e \<Rightarrow>
          if is_Exception e then
            Inr [''error'' \<mapsto> PyStr (str_exn e),
                 ''session_id'' \<mapsto> pyval_of_key session_id,
                 ''output'' \<mapsto> PyStr [],
                 ''waiting'' \<mapsto> PyBool False,
                 ''finished'' \<mapsto> PyBool True]
          else Inl e)"

text \<open>
  The result is what the call returns or raises, paired with the attribute afterwards.
  An existing dictionary is mutated in place, so the default entry stays in it on every
  path; a context without the attribute gets it only by the \<^verbatim>\<open>setattr\<close>, which
  the early return and the raise do not reach.
\<close>

definition run_interactive_shell ::
  "step_fn \<Rightarrow> env_state option \<Rightarrow> session_key \<Rightarrow> string option \<Rightarrow> (exn + pydict) \<times> env_state option" where
  "run_interactive_shell step ctx session_id user_input =
     (let session_state0 = (case ctx of None \<Rightarrow> Map.empty | Some m \<Rightarrow> m);
          session_state =
            (if session_state0 session_id = None then session_state0(session_id \<mapsto> False)
             else session_state0);
          ctx_in_place = (case ctx of None \<Rightarrow> None | Some m \<Rightarrow> Some session_state);
          is_in_python = (session_state session_id = Some True);
          proceed = (guarded_step step session_id user_input,
                     Some (update_env_state session_state session_id user_input))
      in case user_input of
           None \<Rightarrow> proceed
         | Some u \<Rightarrow>
             if is_in_python \<and> u \<noteq> [] then
               (case py_split u of
                  [] \<Rightarrow> (Inl (Raise IndexError ''list index out of range''), ctx_in_place)
                | current_command # rest \<Rightarrow>
                    if \<not> any_safe_in current_command then (Inr sandbox_error, ctx_in_place)
                    else proceed)
             else proceed)"

text \<open>
  kill_shell_session, over any registry type: \<open>terminate\<close> returns the registry it
  leaves and the exception it raised, if any.
\<close>

definition kill_shell_session ::
  "(string \<Rightarrow> 'r \<Rightarrow> exn option \<times> 'r) \<Rightarrow> 'r \<Rightarrow> string \<Rightarrow> (exn + pydict) \<times> 'r" where
  "kill_shell_session terminate registry session_id =
     (case terminate session_id registry of
        (None, registry') \<Rightarrow>
          (Inr [''message'' \<mapsto> PyStr (''Session '' @ session_id @ '' has been terminated''),
                ''output'' \<mapsto> PyStr (''Session '' @ session_id @ '' has been terminated'')],
           registry')
      | (Some e, registry') \<Rightarrow>
          (if is_Exception e then Inr [''error'' \<mapsto> PyStr (str_exn e), ''output'' \<mapsto> PyStr []]
           else Inl e,
           registry'))"



section \<open>The push-style reader of the interactive WebSocket handler\<close>

text \<open>
  \<^verbatim>\<open>read_from_python\<close> of mcp_servers.py, run against the outcomes of its successive
  \<^verbatim>\<open>child.read_nonblocking(size=1024, timeout=1)\<close> calls: a chunk, the TIMEOUT
  exception or the EOF exception. The \<^verbatim>\<open>try\<close> encloses the whole
  \<^verbatim>\<open>while True\<close> loop, so either exception leaves the loop. The result is what
  was done to the socket, and how the task stands when the listed outcomes are used up:
  still in its loop, or returned. Sending to the socket is taken not to raise.
\<close>

datatype read_outcome = Chunk string | ReadTIMEOUT | ReadEOF

datatype ws_event = SendStr string | CloseWs

datatype reader_status = StillReading | ReturnedOnTimeout | ReturnedOnEOF

fun read_from_python :: "read_outcome list \<Rightarrow> ws_event list \<times> reader_status" where
  "read_from_python [] = ([], StillReading)"
| "read_from_python (Chunk output # later) =
     (case read_from_python later of
        (events, status) \<Rightarrow> ((if output \<noteq> [] then [SendStr output] else []) @ events, status))"
| "read_from_python (ReadTIMEOUT # later) = ([], ReturnedOnTimeout)"
| "read_from_python (ReadEOF # later) = ([SendStr ''[Python process ended]'', CloseWs], ReturnedOnEOF)"

section \<open>judge\<close>

text \<open>
  The child process as judge observes it: whether the first
  \<^verbatim>\<open>child.expect(pexpect.EOF, timeout=10)\<close> returns, whether the second one
  (timeout 3, after Ctrl+C) returns, the exit status after \<^verbatim>\<open>child.close()\<close>
  (\<open>None\<close> when a signal ended the process), \<^verbatim>\<open>child.before\<close>, and what the
  \<^verbatim>\<open>CustomLogger\<close> wrote to the log file during each of the two waits (pexpect
  reads from the child only inside \<^verbatim>\<open>expect\<close>). The other pexpect calls
  (sendline, sendcontrol, close) are taken not to raise.
\<close>

record judge_result =
  success :: bool
  log :: string
  error :: "string option"

record child =
  eof_in_time :: bool
  eof_after_ctrl_c :: bool
  exitstatus :: "int option"
  before :: string
  logged_first :: string
  logged_second :: string

definition rstrip_nl :: "string \<Rightarrow> string" where
  "rstrip_nl s = rev (dropWhile (\<lambda>c. c = CHR 0x0A) (rev s))"

text \<open>
  The condition of line 914. \<open>last_output\<close> is a local variable of judge (line 917
  assigns it), so reading it before that assignment raises UnboundLocalError; \<open>None\<close>
  stands for the unbound variable. \<^verbatim>\<open>or\<close> evaluates left to right and stops at
  the first true operand.
\<close>

definition success_condition :: "int option \<Rightarrow> string option \<Rightarrow> exn + bool" where
  "success_condition status last_output =
     (if status = Some 0 then Inr True
      else if status = Some 130 then Inr True
      else
        (case last_output of
           None \<Rightarrow> Inl (Raise UnboundLocalError ''local variable last_output referenced before assignment'')
         | Some text \<Rightarrow> Inr (str_contains ''keyboardInterrupt'' text)))"

definition wait_for_exit :: "child \<Rightarrow> string \<Rightarrow> judge_result \<Rightarrow> string \<times> judge_result" where
  "wait_for_exit ch logfile result =
     (if eof_in_time ch then (logfile @ logged_first ch, result)
      else
        (let logfile1 = logfile @ logged_first ch @ ''user: <Ctrl+C>'' @ [CHR 0x0A] @ logged_second ch
         in if eof_after_ctrl_c ch then (logfile1, result)
            else (logfile1,
                  result\<lparr>error := Some ''The program did not end normally, Ctrl+C was sent to force interrupt.''\<rparr>)))"

definition classify :: "child \<Rightarrow> judge_result \<Rightarrow> exn + judge_result" where
  "classify ch result =
     (let last_output = None
      in case success_condition (exitstatus ch) last_output of
           Inl e \<Rightarrow> Inl e
         | Inr True \<Rightarrow> Inr (result\<lparr>success := True\<rparr>)
         | Inr False \<Rightarrow>
             (let last_output = before ch
              in if error result = None \<or> error result = Some []
                 then Inr (result\<lparr>error := Some (''Program exit status code: '' @ str_status (exitstatus ch)
                             @ [CHR 0x0A] @ ''Last output: '' @ last_output)\<rparr>)
                 else Inr result))"

text \<open>The two handlers of the outer \<^verbatim>\<open>try\<close>, in the source's order.\<close>

definition judge_except :: "exn \<Rightarrow> judge_result \<Rightarrow> exn + judge_result" where
  "judge_except e result =
     (if class_of e = TIMEOUT then Inr (result\<lparr>error := Some ''Program execution timed out''\<rparr>)
      else if is_Exception e then
        Inr (if class_of e = KeyboardInterrupt then result\<lparr>success := True, error := None\<rparr> else result)
      else Inl e)"

text \<open>
  judge over a file system (\<open>path_exists\<close>, and \<open>read_lines\<close> giving the lines of a file
  as iterating over it does) and \<open>spawn\<close>. It returns what the call returns or raises,
  and the commands for which a child process was started.
\<close>

definition judge ::
  "(string \<Rightarrow> bool) \<Rightarrow> (string \<Rightarrow> string list) \<Rightarrow> (string \<Rightarrow> exn + child)
     \<Rightarrow> string \<Rightarrow> string \<Rightarrow> string option \<Rightarrow> (exn + judge_result) \<times> string list" where
  "judge path_exists read_lines spawn context entry_command input_file =
     (let result = \<lparr>success = False, log = [], error = None\<rparr>
      in case (case input_file of
                 None \<Rightarrow> None
               | Some f \<Rightarrow> if f \<noteq> [] \<and> \<not> path_exists f then Some f else None) of
           Some f \<Rightarrow>
             (Inr (result\<lparr>error := Some (''Input file '' @ f
                     @ '' does not exist, please check the path and call again.'')\<rparr>), [])
         | None \<Rightarrow>
             (let input_lines =
                    (case input_file of
                       None \<Rightarrow> []
                     | Some f \<Rightarrow> if f \<noteq> [] \<and> path_exists f then map rstrip_nl (read_lines f) else [])
              in case spawn entry_command of
                   Inl e \<Rightarrow> (Inl e, [])
                 | Inr ch \<Rightarrow>
                     (let logfile0 = concat (map (\<lambda>line. ''user: '' @ rstrip_nl line @ [CHR 0x0A]) input_lines);
                          waited = wait_for_exit ch logfile0 result;
                          outcome = (case classify ch (snd waited) of
                                       Inl e \<Rightarrow> judge_except e (snd waited)
                                     | Inr r \<Rightarrow> Inr r)
                      in case outcome of
                           Inl e \<Rightarrow> (Inl e, [entry_command])
                         | Inr r \<Rightarrow> (Inr (r\<lparr>log := fst waited\<rparr>), [entry_command]))))"

section \<open>The path validators\<close>

text \<open>
  \<^verbatim>\<open>ENABLE_PATH_RESTRICTION\<close> of config.py, from the environment variable of that
  name (\<open>None\<close> when it is not set): \<^verbatim>\<open>os.getenv(..., 'true').lower() == 'true'\<close>.
\<close>

definition lower_char :: "char \<Rightarrow> char" where
  "lower_char c =
     (let n = (of_char c :: nat)
      in if (65 \<le> n \<and> n \<le> 90) \<or> (192 \<le> n \<and> n \<le> 222 \<and> n \<noteq> 215) then char_of (n + 32) else c)"

definition str_lower :: "string \<Rightarrow> string" where
  "str_lower s = map lower_char s"

definition ENABLE_PATH_RESTRICTION :: "string option \<Rightarrow> bool" where
  "ENABLE_PATH_RESTRICTION env =
     (str_lower (case env of None \<Rightarrow> ''true'' | Some v \<Rightarrow> v) = ''true'')"

text \<open>\<^verbatim>\<open>posixpath.join(a, *p)\<close>.\<close>

fun path_join :: "string \<Rightarrow> string list \<Rightarrow> string" where
  "path_join path [] = path"
| "path_join path (b # bs) =
     path_join (if prefix ''/'' b then b
                else if path = [] \<or> suffix ''/'' path then path @ b
                else path @ ''/'' @ b) bs"

text \<open>
  \<^verbatim>\<open>posixpath.commonpath\<close> of two paths: it raises ValueError when one is absolute
  and the other is not; it drops empty and \<^verbatim>\<open>.\<close> components, takes the smaller and
  the greater of the two component lists (lists and strings compare lexicographically),
  and runs the smaller one against the greater up to the first difference, reading the
  greater by index.
\<close>

fun split_sep :: "string \<Rightarrow> string list" where
  "split_sep [] = [[]]"
| "split_sep (c # cs) =
     (if c = CHR ''/'' then [] # split_sep cs
      else (case split_sep cs of [] \<Rightarrow> [[c]] | x # xs \<Rightarrow> (c # x) # xs))"

definition components :: "string \<Rightarrow> string list" where
  "components p = filter (\<lambda>c. c \<noteq> [] \<and> c \<noteq> ''.'') (split_sep p)"

definition isabs :: "string \<Rightarrow> bool" where
  "isabs p = (take 1 p = ''/'')"

fun common_loop :: "string list \<Rightarrow> string list \<Rightarrow> exn + string list" where
  "common_loop [] s2 = Inr []"
| "common_loop (c # s1) [] = Inl (Raise IndexError ''list index out of range'')"
| "common_loop (c # s1) (d # s2) =
     (if c \<noteq> d then Inr []
      else (case common_loop s1 s2 of Inl e \<Rightarrow> Inl e | Inr common \<Rightarrow> Inr (c # common)))"

definition commonpath :: "string \<Rightarrow> string \<Rightarrow> exn + string" where
  "commonpath p q =
     (if isabs p \<noteq> isabs q then Inl (Raise ValueError ''Can't mix absolute and relative paths'')
      else
        (let s1 = min (components p) (components q);
             s2 = max (components p) (components q)
         in case common_loop s1 s2 of
              Inl e \<Rightarrow> Inl e
            | Inr common \<Rightarrow> Inr ((if isabs p then ''/'' else []) @ join_with ''/'' common)))"

text \<open>
  validate_write_path. \<^verbatim>\<open>any\<close> runs through the fifty allowed paths in order,
  stops at the first that matches, and lets an exception of \<open>commonpath\<close> through.
\<close>

definition allowed_paths :: "string \<Rightarrow> string list" where
  "allowed_paths workspace_dir = map (\<lambda>i. path_join workspace_dir [str_nat i, ''reports'']) [1..<51]"

fun any_commonpath :: "string \<Rightarrow> string list \<Rightarrow> exn + bool" where
  "any_commonpath file_path [] = Inr False"
| "any_commonpath file_path (allowed_path # later) =
     (case commonpath file_path allowed_path of
        Inl e \<Rightarrow> Inl e
      | Inr common \<Rightarrow> if common = allowed_path then Inr True else any_commonpath file_path later)"

definition validate_write_path :: "bool \<Rightarrow> string \<Rightarrow> string \<Rightarrow> exn + bool" where
  "validate_write_path enable_path_restriction workspace_dir file_path =
     (if enable_path_restriction then any_commonpath file_path (allowed_paths workspace_dir)
      else Inr True)"

text \<open>
  validate_read_file_path. \<^verbatim>\<open>Path(...).resolve()\<close> depends on the file system and
  is a parameter; it may raise.
\<close>

definition validate_read_file_path :: "(string \<Rightarrow> exn + string) \<Rightarrow> string \<Rightarrow> string \<Rightarrow> exn + bool" where
  "validate_read_file_path resolve workspace_dir file_path =
     (if prefix ''/tmp'' file_path then Inr True
      else if \<not> prefix ''/'' file_path then Inr True
      else if SANDBOX_MODE then
        (case resolve workspace_dir of
           Inl e \<Rightarrow> Inl e
         | Inr workspace_path \<Rightarrow>
             (case resolve file_path of
                Inl e \<Rightarrow> Inl e
              | Inr file_path_resolved \<Rightarrow>
                  if prefix workspace_path file_path_resolved \<or> prefix ''/tmp'' file_path_resolved
                  then Inr True else Inr False))
      else Inr True)"

text \<open>
  The guards of write_file and delete_file: the validator is called outside their
  \<^verbatim>\<open>try\<close>, so its exception leaves the tool; \<open>None\<close> means the guard let the
  call through to the file operation.
\<close>

definition write_file_guard :: "bool \<Rightarrow> string \<Rightarrow> string \<Rightarrow> exn + pydict option" where
  "write_file_guard enable_path_restriction workspace_dir file_path =
     (case validate_write_path enable_path_restriction workspace_dir file_path of
        Inl e \<Rightarrow> Inl e
      | Inr ok \<Rightarrow>
          if \<not> ok then
            Inr (Some [''error'' \<mapsto> PyStr (''This file is not allowed to be modified! If the src code could not handle the case, you can give 0 as the result. You can not modify the code file and metric files.'')])
          else Inr None)"

definition delete_file_guard :: "bool \<Rightarrow> string \<Rightarrow> string \<Rightarrow> exn + pydict option" where
  "delete_file_guard enable_path_restriction workspace_dir file_path =
     (case validate_write_path enable_path_restriction workspace_dir file_path of
        Inl e \<Rightarrow> Inl e
      | Inr ok \<Rightarrow>
          if \<not> ok then
            Inr (Some [''error'' \<mapsto> PyStr (''This file is not allowed to be deleted! You can not delete the code file and metric files.'')])
          else Inr None)"

text \<open>
  A workspace directory in normal form: a slash followed by its components, joined by
  single slashes, none empty and none a lone dot. The default
  \<^verbatim>\<open>/tmp/code_agent_workspace\<close> is one, and so is what
  \<^verbatim>\<open>os.path.abspath\<close> gives for a relative setting.
\<close>

definition normal_abs :: "string \<Rightarrow> bool" where
  "normal_abs p = (p = ''/'' @ join_with ''/'' (components p))"

section \<open>Facts about the string primitives\<close>

lemma str_contains_sublist: "str_contains sub s = sublist sub s"
  by (induction s) (auto simp: sublist_Cons_right)

lemma any_safe_in_iff: "any_safe_in text = (\<exists>frag\<in>set SAFE_COMMANDS. sublist frag text)"
  by (simp add: any_safe_in_def list_ex_iff str_contains_sublist)

lemma split_from_spaces: "list_all py_isspace ws \<Longrightarrow> split_from [] (ws @ s) = split_from [] s"
  by (induction ws) auto

lemma split_from_token:
  "list_all (\<lambda>c. \<not> py_isspace c) tok \<Longrightarrow> split_from cur (tok @ s) = split_from (cur @ tok) s"
  by (induction tok arbitrary: cur) auto

lemma split_from_end:
  "cur \<noteq> [] \<Longrightarrow> s = [] \<or> py_isspace (hd s) \<Longrightarrow> split_from cur s = cur # split_from [] s"
  by (cases s) auto

text \<open>
  The first element of \<^verbatim>\<open>s.split()\<close>: after leading whitespace, the run of
  characters up to the next whitespace or the end.
\<close>

lemma py_split_first:
  assumes "list_all py_isspace ws" "tok \<noteq> []" "list_all (\<lambda>c. \<not> py_isspace c) tok"
    "s = [] \<or> py_isspace (hd s)"
  shows "py_split (ws @ tok @ s) = tok # py_split s"
  using assms by (simp add: py_split_def split_from_spaces split_from_token split_from_end)

section \<open>The command gates\<close>

text \<open>
  Claim C2, amended. run_system_command runs the command iff some fragment of
  SAFE_COMMANDS occurs in the command text, and returns the sandbox error dictionary
  otherwise. The gate of run_interactive_shell, applied when the session's flag is set,
  is stated for an input that holds at least one character that is not whitespace, so
  that it has a first whitespace-delimited token: the gate tests that token instead of
  the whole text; the call goes on to the flag update and the step iff some fragment
  occurs in the token, and otherwise returns the sandbox error dictionary and leaves
  the flags as they were. For these commands and inputs a rejection is a returned
  dictionary, not an exception.
\<close>

theorem command_gates:
  assumes "m sid = Some True" "list_all py_isspace ws" "tok \<noteq> []"
    "list_all (\<lambda>c. \<not> py_isspace c) tok" "rest = [] \<or> py_isspace (hd rest)"
  shows "run_system_command run command =
           (if \<exists>frag\<in>set SAFE_COMMANDS. sublist frag command
            then execute_command run command else Inr sandbox_error)
       \<and> run_interactive_shell step (Some m) sid (Some (ws @ tok @ rest)) =
           (if \<exists>frag\<in>set SAFE_COMMANDS. sublist frag tok
            then (guarded_step step sid (Some (ws @ tok @ rest)),
                  Some (update_env_state m sid (Some (ws @ tok @ rest))))
            else (Inr sandbox_error, Some m))"
proof -
  have first: "py_split (ws @ tok @ rest) = tok # py_split rest"
    using assms by (intro py_split_first)
  have "run_system_command run command =
           (if \<exists>frag\<in>set SAFE_COMMANDS. sublist frag command
            then execute_command run command else Inr sandbox_error)"
    by (simp add: run_system_command_def SANDBOX_MODE_def any_safe_in_iff)
  moreover have "run_interactive_shell step (Some m) sid (Some (ws @ tok @ rest)) =
           (if \<exists>frag\<in>set SAFE_COMMANDS. sublist frag tok
            then (guarded_step step sid (Some (ws @ tok @ rest)),
                  Some (update_env_state m sid (Some (ws @ tok @ rest))))
            else (Inr sandbox_error, Some m))"
    using assms(1,3) by (simp add: run_interactive_shell_def first any_safe_in_iff)
  ultimately show ?thesis by simp
qed

theorem command_gates_witness:
  "run_system_command (\<lambda>c. Inr (Completed ''a.txt'' [] 0)) ''ls -la'' =
      Inr [''stdout'' \<mapsto> PyStr ''a.txt'', ''stderr'' \<mapsto> PyStr [], ''return_code'' \<mapsto> PyInt 0]
   \<and> run_system_command (\<lambda>c. Inr (Completed ''a.txt'' [] 0)) ''rm -rf /'' = Inr sandbox_error
   \<and> run_interactive_shell (\<lambda>c s u. Inr Map.empty) (Some [Some ''s1'' \<mapsto> True]) (Some ''s1'')
        (Some '' rm python'') = (Inr sandbox_error, Some [Some ''s1'' \<mapsto> True])"
  using command_gates [of "[Some ''s1'' \<mapsto> True]" "Some ''s1''" "'' ''" "''rm''" "'' python''"
      "\<lambda>c. Inr (Completed ''a.txt'' [] 0)" "''ls -la''" "\<lambda>c s u. Inr Map.empty"]
    command_gates [of "[Some ''s1'' \<mapsto> True]" "Some ''s1''" "'' ''" "''rm''" "'' python''"
      "\<lambda>c. Inr (Completed ''a.txt'' [] 0)" "''rm -rf /''" "\<lambda>c s u. Inr Map.empty"]
  by (simp add: py_isspace_def SAFE_COMMANDS_def sublist_code execute_command_def)

text \<open>
  Against claim C2 as stated: in interpreter mode the input \<^verbatim>\<open>rm python\<close> holds
  the allow-listed fragment \<^verbatim>\<open>python\<close> as a substring, and is rejected.
\<close>

theorem first_token_gate_counterexample:
  "fst (run_interactive_shell (\<lambda>c s u. Inr Map.empty) (Some [Some ''s1'' \<mapsto> True]) (Some ''s1'')
          (Some ''rm python'')) = Inr sandbox_error
   \<and> ''python'' \<in> set SAFE_COMMANDS \<and> sublist ''python'' ''rm python''"
  by (simp add: run_interactive_shell_def py_split_def py_isspace_def any_safe_in_def
      SAFE_COMMANDS_def sublist_code)

section \<open>The interpreter flag\<close>

text \<open>
  Claim C7 at the input \<^verbatim>\<open>exit\<close>: when the session's flag is set, the gate
  rejects \<^verbatim>\<open>exit\<close> (no fragment of SAFE_COMMANDS occurs in it), the call
  returns the sandbox error before the flag update, and the flag stays set; the step is
  not called.
\<close>

theorem exit_in_interpreter_mode_rejected:
  "run_interactive_shell step (Some (m(sid \<mapsto> True))) sid (Some ''exit'')
     = (Inr sandbox_error, Some (m(sid \<mapsto> True)))"
  by (simp add: run_interactive_shell_def py_split_def py_isspace_def any_safe_in_def SAFE_COMMANDS_def)

section \<open>Exceptions of the step\<close>

text \<open>
  Claim C4, where the code departs from it: when \<open>step\<close> raises an exception that
  \<^verbatim>\<open>except Exception\<close> catches, start_interative_shell returns a dictionary whose
  \<^verbatim>\<open>output\<close> is \<^verbatim>\<open>None\<close>, not the empty string, while
  run_interactive_shell (here on a context without flags, so that the gate is not in
  play) returns the dictionary of the claim, with \<^verbatim>\<open>output\<close> the empty string.
\<close>

theorem start_shell_error_output_none:
  assumes "step (Some cmd) None None = Inl e" "step None sid inp = Inl e" "is_Exception e"
  shows "start_interative_shell step cmd =
           Inr [''error'' \<mapsto> PyStr (str_exn e), ''session_id'' \<mapsto> PyNone, ''output'' \<mapsto> PyNone,
                ''waiting'' \<mapsto> PyBool False, ''finished'' \<mapsto> PyBool True]
       \<and> fst (run_interactive_shell step None sid inp) =
           Inr [''error'' \<mapsto> PyStr (str_exn e), ''session_id'' \<mapsto> pyval_of_key sid,
                ''output'' \<mapsto> PyStr [], ''waiting'' \<mapsto> PyBool False, ''finished'' \<mapsto> PyBool True]"
  using assms
  by (cases inp) (simp_all add: start_interative_shell_def run_interactive_shell_def guarded_step_def)

theorem start_shell_error_output_none_witness:
  "start_interative_shell (\<lambda>c s u. Inl (Raise OtherException ''no pty'')) ''bash'' =
           Inr [''error'' \<mapsto> PyStr ''no pty'', ''session_id'' \<mapsto> PyNone, ''output'' \<mapsto> PyNone,
                ''waiting'' \<mapsto> PyBool False, ''finished'' \<mapsto> PyBool True]"
  using start_shell_error_output_none [of "\<lambda>c s u. Inl (Raise OtherException ''no pty'')" "''bash''"
      "Raise OtherException ''no pty''" None None]
  by (simp add: is_Exception_def)

section \<open>Killing a session\<close>

text \<open>
  On the code alone: whatever \<open>terminate\<close> does, short of raising outside
  \<^verbatim>\<open>Exception\<close>, kill_shell_session returns a dictionary.
\<close>

lemma kill_shell_session_structured:
  assumes "\<And>e r. terminate sid reg = (Some e, r) \<Longrightarrow> is_Exception e"
  shows "\<exists>d. fst (kill_shell_session terminate reg sid) = Inr d"
  using assms by (cases "terminate sid reg") (auto simp: kill_shell_session_def split: option.splits)




section \<open>The reader task\<close>

lemma reader_stops_at_timeout:
  "read_from_python (earlier @ ReadTIMEOUT # later) = read_from_python (earlier @ [ReadTIMEOUT])"
proof (induction earlier)
  case Nil
  show ?case by simp
next
  case (Cons r earlier)
  then show ?case by (cases r) simp_all
qed

text \<open>
  Claim C3, where the code departs from it: nothing the child writes after the first
  read that times out reaches the listener. The reader returns at that timeout, sends
  no sentinel and does not close the connection; with a prompt, one silent second, then
  a line of output and the end of the stream, only the prompt is forwarded.
\<close>

theorem reader_ends_on_first_timeout:
  "read_from_python (earlier @ ReadTIMEOUT # later) = read_from_python (earlier @ [ReadTIMEOUT])
   \<and> read_from_python [Chunk ''>>> '', ReadTIMEOUT, Chunk ''4'', ReadEOF]
       = ([SendStr ''>>> ''], ReturnedOnTimeout)"
proof (intro conjI)
  show "read_from_python (earlier @ ReadTIMEOUT # later) = read_from_python (earlier @ [ReadTIMEOUT])"
    by (rule reader_stops_at_timeout)
  show "read_from_python [Chunk ''>>> '', ReadTIMEOUT, Chunk ''4'', ReadEOF]
       = ([SendStr ''>>> ''], ReturnedOnTimeout)"
    by simp
qed

section \<open>The verdict of judge\<close>

text \<open>
  Claim C1, where the code departs from it: when the child exits in time with a status
  other than 0 and 130, the third operand of the condition reads \<open>last_output\<close> before
  any assignment, the UnboundLocalError is caught by \<^verbatim>\<open>except Exception\<close>, and
  judge returns success false with no error message, whatever the output holds.
\<close>

theorem judge_other_status_unclassified:
  assumes "spawn cmd = Inr ch" "eof_in_time ch" "exitstatus ch \<noteq> Some 0" "exitstatus ch \<noteq> Some 130"
  shows "judge path_exists read_lines spawn context cmd None
           = (Inr \<lparr>success = False, log = logged_first ch, error = None\<rparr>, [cmd])"
  using assms
  by (simp add: judge_def wait_for_exit_def classify_def success_condition_def judge_except_def
      is_Exception_def)

theorem judge_other_status_unclassified_witness:
  "judge (\<lambda>p. False) (\<lambda>p. [])
      (\<lambda>c. Inr \<lparr>eof_in_time = True, eof_after_ctrl_c = True, exitstatus = Some 1,
                 before = ''caught keyboardInterrupt'', logged_first = ''program: caught keyboardInterrupt'',
                 logged_second = []\<rparr>) ''ctx'' ''python main.py'' None
     = (Inr \<lparr>success = False, log = ''program: caught keyboardInterrupt'', error = None\<rparr>,
        [''python main.py''])"
  using judge_other_status_unclassified [of "\<lambda>c. Inr \<lparr>eof_in_time = True, eof_after_ctrl_c = True, exitstatus = Some 1,
                 before = ''caught keyboardInterrupt'', logged_first = ''program: caught keyboardInterrupt'',
                 logged_second = []\<rparr>" "''python main.py''" _ "\<lambda>p. False" "\<lambda>p. []" "''ctx''"]
  by simp

section \<open>A missing input file\<close>

text \<open>
  Claim C8, amended: for every call to judge with an input_file that is neither None nor
  the empty string and whose path does not exist, the result has success false, an
  error message naming the file and an empty log, and no child process is started.
\<close>

theorem judge_missing_input_file:
  assumes "f \<noteq> []" "\<not> path_exists f"
  shows "judge path_exists read_lines spawn context cmd (Some f)
           = (Inr \<lparr>success = False, log = [],
                   error = Some (''Input file '' @ f @ '' does not exist, please check the path and call again.'')\<rparr>,
              [])"
  using assms by (simp add: judge_def)

theorem judge_missing_input_file_witness:
  "judge (\<lambda>p. False) (\<lambda>p. []) (\<lambda>c. Inl (Raise OtherException ''not reached'')) ''ctx'' ''cat'' (Some ''a.in'')
           = (Inr \<lparr>success = False, log = [],
                   error = Some (''Input file a.in does not exist, please check the path and call again.'')\<rparr>,
              [])"
  using judge_missing_input_file [of "''a.in''" "\<lambda>p. False" "\<lambda>p. []"
      "\<lambda>c. Inl (Raise OtherException ''not reached'')" "''ctx''" "''cat''"]
  by simp

text \<open>
  Against claim C8 as stated: the empty string is an input_file that is not None and
  names no existing path, yet the guard of line 873 takes it for no input file and the
  child is started.
\<close>

theorem judge_empty_input_file_counterexample:
  "snd (judge (\<lambda>p. False) (\<lambda>p. [])
      (\<lambda>c. Inr \<lparr>eof_in_time = True, eof_after_ctrl_c = True, exitstatus = Some 0,
                 before = [], logged_first = [], logged_second = []\<rparr>) ''ctx'' ''cat'' (Some []))
     = [''cat'']"
  by (simp add: judge_def wait_for_exit_def classify_def success_condition_def)

section \<open>The restriction switch\<close>

text \<open>
  The lower-case form of a value is \<^verbatim>\<open>true\<close> exactly when the value is one of
  the sixteen spellings of that word in upper and lower case.
\<close>

lemma of_char_lower_char:
  "(of_char (lower_char c) :: nat) =
     (if (65 \<le> (of_char c :: nat) \<and> (of_char c :: nat) \<le> 90)
         \<or> (192 \<le> (of_char c :: nat) \<and> (of_char c :: nat) \<le> 222 \<and> (of_char c :: nat) \<noteq> 215)
      then of_char c + 32 else of_char c)"
  by (simp add: lower_char_def Let_def)


lemma lower_char_eq_iff:
  assumes "(of_char x :: nat) = k" "97 \<le> k" "k \<le> 122"
  shows "lower_char c = x \<longleftrightarrow> (of_char c :: nat) = k \<or> (of_char c :: nat) = k - 32"
proof -
  have "lower_char c = x \<longleftrightarrow> (of_char (lower_char c) :: nat) = of_char x"
    by (simp only: of_char_eq_iff)
  also have "\<dots> \<longleftrightarrow> (of_char c :: nat) = k \<or> (of_char c :: nat) = k - 32"
    unfolding of_char_lower_char assms(1) using assms(2,3) by presburger
  finally show ?thesis .
qed


lemma of_char_is:
  "(of_char c :: nat) = 116 \<longleftrightarrow> c = CHR ''t''" "(of_char c :: nat) = 84 \<longleftrightarrow> c = CHR ''T''"
  "(of_char c :: nat) = 114 \<longleftrightarrow> c = CHR ''r''" "(of_char c :: nat) = 82 \<longleftrightarrow> c = CHR ''R''"
  "(of_char c :: nat) = 117 \<longleftrightarrow> c = CHR ''u''" "(of_char c :: nat) = 85 \<longleftrightarrow> c = CHR ''U''"
  "(of_char c :: nat) = 101 \<longleftrightarrow> c = CHR ''e''" "(of_char c :: nat) = 69 \<longleftrightarrow> c = CHR ''E''"
  using of_char_eq_iff [of c "CHR ''t''", where ?'a = nat] of_char_eq_iff [of c "CHR ''T''", where ?'a = nat]
    of_char_eq_iff [of c "CHR ''r''", where ?'a = nat] of_char_eq_iff [of c "CHR ''R''", where ?'a = nat]
    of_char_eq_iff [of c "CHR ''u''", where ?'a = nat] of_char_eq_iff [of c "CHR ''U''", where ?'a = nat]
    of_char_eq_iff [of c "CHR ''e''", where ?'a = nat] of_char_eq_iff [of c "CHR ''E''", where ?'a = nat]
  by simp_all


lemma lower_char_cases:
  "lower_char c = CHR ''t'' \<longleftrightarrow> c = CHR ''t'' \<or> c = CHR ''T''"
  "lower_char c = CHR ''r'' \<longleftrightarrow> c = CHR ''r'' \<or> c = CHR ''R''"
  "lower_char c = CHR ''u'' \<longleftrightarrow> c = CHR ''u'' \<or> c = CHR ''U''"
  "lower_char c = CHR ''e'' \<longleftrightarrow> c = CHR ''e'' \<or> c = CHR ''E''"
proof -
  have "lower_char c = CHR ''t'' \<longleftrightarrow> (of_char c :: nat) = 116 \<or> (of_char c :: nat) = 116 - 32"
    by (rule lower_char_eq_iff) simp_all
  then show "lower_char c = CHR ''t'' \<longleftrightarrow> c = CHR ''t'' \<or> c = CHR ''T''"
    by (simp only: of_char_is diff_numeral_simps) (simp add: of_char_is)
  have "lower_char c = CHR ''r'' \<longleftrightarrow> (of_char c :: nat) = 114 \<or> (of_char c :: nat) = 114 - 32"
    by (rule lower_char_eq_iff) simp_all
  then show "lower_char c = CHR ''r'' \<longleftrightarrow> c = CHR ''r'' \<or> c = CHR ''R''"
    by (simp add: of_char_is)
  have "lower_char c = CHR ''u'' \<longleftrightarrow> (of_char c :: nat) = 117 \<or> (of_char c :: nat) = 117 - 32"
    by (rule lower_char_eq_iff) simp_all
  then show "lower_char c = CHR ''u'' \<longleftrightarrow> c = CHR ''u'' \<or> c = CHR ''U''"
    by (simp add: of_char_is)
  have "lower_char c = CHR ''e'' \<longleftrightarrow> (of_char c :: nat) = 101 \<or> (of_char c :: nat) = 101 - 32"
    by (rule lower_char_eq_iff) simp_all
  then show "lower_char c = CHR ''e'' \<longleftrightarrow> c = CHR ''e'' \<or> c = CHR ''E''"
    by (simp add: of_char_is)
qed


lemma str_lower_true_iff:
  "str_lower v = ''true'' \<longleftrightarrow>
     (\<exists>a b c d. v = [a, b, c, d] \<and> a \<in> {CHR ''t'', CHR ''T''} \<and> b \<in> {CHR ''r'', CHR ''R''}
        \<and> c \<in> {CHR ''u'', CHR ''U''} \<and> d \<in> {CHR ''e'', CHR ''E''})"
proof
  assume "str_lower v = ''true''"
  then obtain a b c d where v: "v = [a, b, c, d]"
    and l: "lower_char a = CHR ''t''" "lower_char b = CHR ''r''" "lower_char c = CHR ''u''"
      "lower_char d = CHR ''e''"
    unfolding str_lower_def by (auto simp: map_eq_Cons_conv)
  from l have "a \<in> {CHR ''t'', CHR ''T''}" "b \<in> {CHR ''r'', CHR ''R''}"
    "c \<in> {CHR ''u'', CHR ''U''}" "d \<in> {CHR ''e'', CHR ''E''}"
    by (simp_all only: lower_char_cases insert_iff empty_iff simp_thms)
  with v show "\<exists>a b c d. v = [a, b, c, d] \<and> a \<in> {CHR ''t'', CHR ''T''} \<and> b \<in> {CHR ''r'', CHR ''R''}
        \<and> c \<in> {CHR ''u'', CHR ''U''} \<and> d \<in> {CHR ''e'', CHR ''E''}" by blast
next
  assume "\<exists>a b c d. v = [a, b, c, d] \<and> a \<in> {CHR ''t'', CHR ''T''} \<and> b \<in> {CHR ''r'', CHR ''R''}
        \<and> c \<in> {CHR ''u'', CHR ''U''} \<and> d \<in> {CHR ''e'', CHR ''E''}"
  then obtain a b c d where v: "v = [a, b, c, d]"
    and m: "a = CHR ''t'' \<or> a = CHR ''T''" "b = CHR ''r'' \<or> b = CHR ''R''"
      "c = CHR ''u'' \<or> c = CHR ''U''" "d = CHR ''e'' \<or> d = CHR ''E''" by blast
  from m have "lower_char a = CHR ''t''" "lower_char b = CHR ''r''" "lower_char c = CHR ''u''"
      "lower_char d = CHR ''e''"
    by (simp_all only: lower_char_cases)
  with v show "str_lower v = ''true''" by (simp add: str_lower_def)
qed

text \<open>
  Claim C10: when the environment variable ENABLE_PATH_RESTRICTION is set to a value
  that is not \<^verbatim>\<open>true\<close> in some mix of upper and lower case,
  validate_write_path returns true for every workspace and every path, and the guards
  of write_file and delete_file let every path through.
\<close>

theorem restriction_switch_off:
  assumes "\<not> (\<exists>a b c d. v = [a, b, c, d] \<and> a \<in> {CHR ''t'', CHR ''T''} \<and> b \<in> {CHR ''r'', CHR ''R''}
        \<and> c \<in> {CHR ''u'', CHR ''U''} \<and> d \<in> {CHR ''e'', CHR ''E''})"
  shows "validate_write_path (ENABLE_PATH_RESTRICTION (Some v)) ws p = Inr True
       \<and> write_file_guard (ENABLE_PATH_RESTRICTION (Some v)) ws p = Inr None
       \<and> delete_file_guard (ENABLE_PATH_RESTRICTION (Some v)) ws p = Inr None"
proof -
  have "str_lower v \<noteq> ''true''"
    using assms by (simp only: str_lower_true_iff not_False_eq_True)
  then show ?thesis
    by (simp add: ENABLE_PATH_RESTRICTION_def validate_write_path_def write_file_guard_def
        delete_file_guard_def)
qed

theorem restriction_switch_off_witness:
  "validate_write_path (ENABLE_PATH_RESTRICTION (Some ''False'')) ''/tmp/code_agent_workspace'' ''/etc/passwd'' = Inr True
   \<and> write_file_guard (ENABLE_PATH_RESTRICTION (Some ''False'')) ''/tmp/code_agent_workspace'' ''/etc/passwd'' = Inr None
   \<and> delete_file_guard (ENABLE_PATH_RESTRICTION (Some ''False'')) ''/tmp/code_agent_workspace'' ''/etc/passwd'' = Inr None"
proof -
  have h: "\<not> (\<exists>a b c d. ''False'' = [a, b, c, d] \<and> a \<in> {CHR ''t'', CHR ''T''} \<and> b \<in> {CHR ''r'', CHR ''R''}
        \<and> c \<in> {CHR ''u'', CHR ''U''} \<and> d \<in> {CHR ''e'', CHR ''E''})"
    by simp
  show ?thesis
    by (rule restriction_switch_off [OF h])
qed

section \<open>Facts about paths\<close>

lemma split_sep_nonempty: "split_sep s \<noteq> []"
  by (induction s) (auto split: list.splits)

lemma split_sep_append: "split_sep (a @ CHR ''/'' # b) = split_sep a @ split_sep b"
proof (induction a)
  case Nil
  show ?case by simp
next
  case (Cons c a)
  obtain x xs where "split_sep a = x # xs"
    using split_sep_nonempty [of a] by (cases "split_sep a") auto
  with Cons show ?case by simp
qed

lemma components_append: "components (a @ CHR ''/'' # b) = components a @ components b"
  by (simp add: components_def split_sep_append)

lemma split_sep_no_slash: "CHR ''/'' \<notin> set s \<Longrightarrow> split_sep s = [s]"
  by (induction s) auto

lemma components_word: "CHR ''/'' \<notin> set s \<Longrightarrow> s \<noteq> [] \<Longrightarrow> s \<noteq> ''.'' \<Longrightarrow> components s = [s]"
  by (simp add: components_def split_sep_no_slash)

lemma split_sep_elems: "c \<in> set (split_sep p) \<Longrightarrow> CHR ''/'' \<notin> set c"
  by (induction p arbitrary: c) (auto split: if_splits list.splits)

lemma components_elems: "c \<in> set (components p) \<Longrightarrow> c \<noteq> [] \<and> CHR ''/'' \<notin> set c"
  using split_sep_elems by (auto simp: components_def)

lemma digit_char_in: "d < 10 \<Longrightarrow> digit_char d \<in> set ''0123456789''"
  unfolding digit_char_def by (rule nth_mem) simp

lemma str_nat_digits: "set (str_nat n) \<subseteq> set ''0123456789''"
proof (induction n rule: str_nat.induct)
  case (1 n)
  show ?case
  proof (cases "n < 10")
    case True
    then show ?thesis using digit_char_in [of n] by (subst str_nat.simps) simp
  next
    case False
    have "n mod 10 < 10" by simp
    then have "digit_char (n mod 10) \<in> set ''0123456789''" by (rule digit_char_in)
    with False 1 show ?thesis by (subst str_nat.simps) simp
  qed
qed

lemma str_nat_nonempty: "str_nat n \<noteq> []"
  by (subst str_nat.simps) simp

lemma components_str_nat: "components (str_nat n) = [str_nat n]"
proof -
  have "CHR ''/'' \<notin> set (str_nat n)" "CHR ''.'' \<notin> set (str_nat n)"
    using str_nat_digits [of n] by auto
  moreover from this have "str_nat n \<noteq> ''.''" by auto
  ultimately show ?thesis using str_nat_nonempty by (intro components_word) auto
qed

lemma join_with_append:
  "xs \<noteq> [] \<Longrightarrow> ys \<noteq> [] \<Longrightarrow> join_with s (xs @ ys) = join_with s xs @ s @ join_with s ys"
proof (induction s xs rule: join_with.induct)
  case (2 sep x)
  then show ?case by (cases ys) simp_all
qed simp_all

lemma join_with_last:
  "xs \<noteq> [] \<Longrightarrow> last xs \<noteq> [] \<Longrightarrow> join_with s xs \<noteq> [] \<and> last (join_with s xs) = last (last xs)"
  by (induction s xs rule: join_with.induct) auto

lemma join_with_head_nonempty: "xs \<noteq> [] \<Longrightarrow> hd xs \<noteq> [] \<Longrightarrow> join_with s xs \<noteq> []"
  by (induction s xs rule: join_with.induct) auto

lemma join_prefix_eq:
  assumes "prefix xs ys" "\<forall>c\<in>set ys. c \<noteq> []" "join_with ''/'' xs = join_with ''/'' ys"
  shows "xs = ys"
proof -
  obtain zs where ys: "ys = xs @ zs" using assms(1) by (auto simp: prefix_def)
  show ?thesis
  proof (cases "zs = []")
    case True
    with ys show ?thesis by simp
  next
    case False
    show ?thesis
    proof (cases "xs = []")
      case True
      with ys False assms(2) have "join_with ''/'' ys \<noteq> []"
        by (intro join_with_head_nonempty) (auto simp: neq_Nil_conv)
      with True assms(3) show ?thesis by simp
    next
      case xs: False
      have "join_with ''/'' ys = join_with ''/'' xs @ ''/'' @ join_with ''/'' zs"
        using ys xs False by (simp add: join_with_append)
      with assms(3) show ?thesis by simp
    qed
  qed
qed

lemma common_loop_le: "s1 \<le> s2 \<Longrightarrow> common_loop s1 s2 = Inr (longest_common_prefix s1 s2)"
  by (induction s1 s2 rule: common_loop.induct) auto

lemma lcp_commute: "longest_common_prefix a b = longest_common_prefix b a"
  by (induction a b rule: longest_common_prefix.induct) (auto simp: neq_Nil_conv)

lemma common_loop_min_max:
  fixes a b :: "string list"
  shows "common_loop (min a b) (max a b) = Inr (longest_common_prefix a b)"
proof (cases "a \<le> b")
  case True
  then show ?thesis by (simp add: min_def max_def common_loop_le)
next
  case False
  then have "b \<le> a" by simp
  then have "common_loop b a = Inr (longest_common_prefix b a)" by (rule common_loop_le)
  with False show ?thesis by (simp add: min_def max_def lcp_commute)
qed

lemma commonpath_abs:
  "isabs p \<Longrightarrow> isabs q \<Longrightarrow>
   commonpath p q = Inr (''/'' @ join_with ''/'' (longest_common_prefix (components p) (components q)))"
  by (simp add: commonpath_def common_loop_min_max)

lemma commonpath_mixed:
  "\<not> isabs p \<Longrightarrow> isabs q \<Longrightarrow> commonpath p q = Inl (Raise ValueError ''Can't mix absolute and relative paths'')"
  by (simp add: commonpath_def)

lemma lcp_eq_iff: "longest_common_prefix a b = b \<longleftrightarrow> prefix b a"
proof
  assume "longest_common_prefix a b = b"
  then show "prefix b a" using longest_common_prefix_prefix1 [of a b] by simp
next
  assume "prefix b a"
  then have "prefix b (longest_common_prefix a b)"
    by (intro longest_common_prefix_max_prefix) auto
  moreover have "prefix (longest_common_prefix a b) b" by (rule longest_common_prefix_prefix2)
  ultimately show "longest_common_prefix a b = b" by (simp add: prefix_order.antisym)
qed

lemma normal_abs_isabs: "normal_abs p \<Longrightarrow> isabs p"
  unfolding normal_abs_def isabs_def by (cases p) auto

lemma commonpath_match:
  assumes "isabs p" "normal_abs a"
  shows "\<exists>c. commonpath p a = Inr c \<and> (c = a \<longleftrightarrow> prefix (components a) (components p))"
proof -
  let ?l = "longest_common_prefix (components p) (components a)"
  have cp: "commonpath p a = Inr (''/'' @ join_with ''/'' ?l)"
    using assms by (simp add: commonpath_abs normal_abs_isabs)
  have a: "a = ''/'' @ join_with ''/'' (components a)"
    using assms(2) by (simp add: normal_abs_def)
  have "(''/'' @ join_with ''/'' ?l = a) \<longleftrightarrow> ?l = components a"
  proof
    assume h: "''/'' @ join_with ''/'' ?l = a"
    have "''/'' @ join_with ''/'' ?l = ''/'' @ join_with ''/'' (components a)"
      by (rule trans [OF h a])
    then have "join_with ''/'' ?l = join_with ''/'' (components a)" by simp
    moreover have "prefix ?l (components a)" by (rule longest_common_prefix_prefix2)
    moreover have "\<forall>c\<in>set (components a). c \<noteq> []" using components_elems by blast
    ultimately show "?l = components a" by (intro join_prefix_eq)
  next
    assume "?l = components a"
    then have "''/'' @ join_with ''/'' ?l = ''/'' @ join_with ''/'' (components a)" by simp
    also have "\<dots> = a" by (rule sym [OF a])
    finally show "''/'' @ join_with ''/'' ?l = a" .
  qed
  with cp show ?thesis by (simp add: lcp_eq_iff)
qed

lemma any_commonpath_abs:
  assumes "isabs p" "\<forall>a\<in>set as. normal_abs a"
  shows "any_commonpath p as = Inr (\<exists>a\<in>set as. prefix (components a) (components p))"
  using assms(2)
proof (induction as)
  case Nil
  show ?case by simp
next
  case (Cons a as)
  then have "normal_abs a" by simp
  from commonpath_match [OF assms(1) this] obtain c where
    "commonpath p a = Inr c" "c = a \<longleftrightarrow> prefix (components a) (components p)" by blast
  with Cons show ?case by auto
qed

lemma suffix_slash: "suffix ''/'' y \<longleftrightarrow> y \<noteq> [] \<and> last y = CHR ''/''"
  by (cases y rule: rev_cases) (auto simp: suffix_def)

lemma prefix_slash: "prefix ''/'' y \<longleftrightarrow> isabs y"
  by (cases y) (auto simp: isabs_def)

lemma str_nat_no_slash: "CHR ''/'' \<notin> set (str_nat n)"
  using str_nat_digits [of n] by auto

lemma str_nat_relative: "\<not> isabs (str_nat n)"
proof
  assume "isabs (str_nat n)"
  then have "hd (str_nat n) = CHR ''/''" "str_nat n \<noteq> []"
    by (cases "str_nat n"; simp add: isabs_def)+
  then have "CHR ''/'' \<in> set (str_nat n)" using hd_in_set by metis
  with str_nat_no_slash show False by blast
qed

lemma str_nat_last: "last (str_nat n) \<noteq> CHR ''/''"
  using str_nat_no_slash [of n] str_nat_nonempty [of n] last_in_set by metis

lemma path_join_reports:
  "ws \<noteq> [] \<Longrightarrow>
   path_join ws [str_nat i, ''reports''] =
     (if suffix ''/'' ws then ws @ str_nat i @ ''/reports'' else ws @ ''/'' @ str_nat i @ ''/reports'')"
  using str_nat_last [of i] str_nat_nonempty [of i] str_nat_relative [of i]
  by (simp add: prefix_slash suffix_slash)

lemma isabs_append: "isabs a \<Longrightarrow> isabs (a @ b)"
  by (cases a) (auto simp: isabs_def)

lemma allowed_path_isabs: "isabs ws \<Longrightarrow> isabs (path_join ws [str_nat i, ''reports''])"
proof -
  assume abs: "isabs ws"
  then have "ws \<noteq> []" by (auto simp: isabs_def)
  then show ?thesis using abs by (simp add: path_join_reports isabs_append del: path_join.simps)
qed

lemma components_Nil: "components [] = []"
  by (simp add: components_def)

lemma components_reports: "components ''reports'' = [''reports'']"
  by (simp add: components_def)

lemma allowed_path_normal:
  assumes "normal_abs ws"
  shows "components (path_join ws [str_nat i, ''reports'']) = components ws @ [str_nat i, ''reports'']
       \<and> normal_abs (path_join ws [str_nat i, ''reports''])"
proof -
  define C where "C = components ws"
  have ws: "ws = ''/'' @ join_with ''/'' C"
    using assms by (simp add: normal_abs_def C_def)
  then have ne: "ws \<noteq> []" by simp
  have tail: "components (str_nat i @ ''/reports'') = [str_nat i, ''reports'']"
    using components_append [of "str_nat i" "''reports''"]
    by (simp add: components_str_nat components_reports)
  show ?thesis
  proof (cases "C = []")
    case True
    with ws have w: "ws = ''/''" by simp
    have pj: "path_join ws [str_nat i, ''reports''] = ''/'' @ str_nat i @ ''/reports''"
      using ne by (simp add: path_join_reports w suffix_slash del: path_join.simps)
    have comp: "components (''/'' @ str_nat i @ ''/reports'') = [str_nat i, ''reports'']"
      using components_append [of "[]" "str_nat i @ ''/reports''"] by (simp add: components_Nil tail)
    have cw: "components ws = []" using True by (simp add: C_def)
    show ?thesis
      unfolding pj normal_abs_def comp cw by simp
  next
    case False
    then have "last C \<in> set (components ws)" by (simp add: C_def)
    then have lC: "last C \<noteq> []" "CHR ''/'' \<notin> set (last C)" using components_elems by blast+
    have jl: "join_with ''/'' C \<noteq> []" "last (join_with ''/'' C) = last (last C)"
      using join_with_last [OF False lC(1)] by simp_all
    have "last ws = last (last C)" by (subst ws) (simp add: jl)
    moreover have "last (last C) \<noteq> CHR ''/''" using lC last_in_set by metis
    ultimately have ns: "\<not> suffix ''/'' ws" by (simp add: suffix_slash)
    have pj: "path_join ws [str_nat i, ''reports''] = ws @ ''/'' @ str_nat i @ ''/reports''"
      using ne ns by (simp add: path_join_reports del: path_join.simps)
    have comp: "components (ws @ ''/'' @ str_nat i @ ''/reports'') = C @ [str_nat i, ''reports'']"
      using components_append [of ws "str_nat i @ ''/reports''"] by (simp add: tail C_def)
    have "join_with ''/'' (C @ [str_nat i, ''reports'']) = join_with ''/'' C @ ''/'' @ str_nat i @ ''/reports''"
      using False by (simp add: join_with_append)
    then have "''/'' @ join_with ''/'' (C @ [str_nat i, ''reports'']) =
               (''/'' @ join_with ''/'' C) @ ''/'' @ str_nat i @ ''/reports''" by simp
    also have "\<dots> = ws @ ''/'' @ str_nat i @ ''/reports''" by (subst ws) simp
    finally have nrm: "ws @ ''/'' @ str_nat i @ ''/reports'' = ''/'' @ join_with ''/'' (C @ [str_nat i, ''reports''])"
      by (rule sym)
    show ?thesis
      unfolding pj normal_abs_def comp using nrm by (simp add: C_def)
  qed
qed

lemma validate_write_path_abs:
  assumes "normal_abs ws" "isabs p"
  shows "validate_write_path True ws p =
           Inr (\<exists>i\<in>{1..50}. prefix (components ws @ [str_nat i, ''reports'']) (components p))"
proof -
  have range: "set [1..<51] = {1..50::nat}" by auto
  have "\<forall>a\<in>set (allowed_paths ws). normal_abs a"
    using allowed_path_normal [OF assms(1)] by (simp add: allowed_paths_def del: path_join.simps)
  then have "any_commonpath p (allowed_paths ws) =
      Inr (\<exists>a\<in>set (allowed_paths ws). prefix (components a) (components p))"
    by (rule any_commonpath_abs [OF assms(2)])
  also have "(\<exists>a\<in>set (allowed_paths ws). prefix (components a) (components p)) =
      (\<exists>i\<in>{1..50}. prefix (components ws @ [str_nat i, ''reports'']) (components p))"
    unfolding allowed_paths_def set_map range using allowed_path_normal [OF assms(1)]
    by (simp del: path_join.simps)
  finally show ?thesis by (simp add: validate_write_path_def)
qed

lemma validate_write_path_relative:
  assumes "isabs ws" "\<not> isabs p"
  shows "validate_write_path True ws p = Inl (Raise ValueError ''Can't mix absolute and relative paths'')"
proof -
  have "[1..<51::nat] = 1 # [Suc 1..<51]" by (rule upt_conv_Cons) simp
  then have al: "allowed_paths ws =
      path_join ws [str_nat 1, ''reports''] # map (\<lambda>i. path_join ws [str_nat i, ''reports'']) [Suc 1..<51]"
    by (simp only: allowed_paths_def list.map)
  have "commonpath p (path_join ws [str_nat 1, ''reports''])
      = Inl (Raise ValueError ''Can't mix absolute and relative paths'')"
    using assms(2) allowed_path_isabs [OF assms(1)] by (rule commonpath_mixed)
  then show ?thesis
    by (simp only: validate_write_path_def al any_commonpath.simps if_True sum.case)
qed

lemma str_nat_7: "str_nat 7 = ''7''"
  by (simp add: str_nat.simps digit_char_def)

text \<open>
  Claim C5, where the code departs from it. For a workspace directory in normal form,
  validate_write_path with the restriction on returns true exactly for the absolute
  paths whose components, taken as the text has them, begin with those of
  \<^verbatim>\<open>{WORKSPACE_DIR}/{i}/reports\<close> for some \<open>i\<close> from 1 to 50; it is true for
  \<^verbatim>\<open>{workspace}/7/reports/round1.jsonl\<close> and false for
  \<^verbatim>\<open>{workspace}/7/src/main.py\<close>. The components are compared without resolving
  \<^verbatim>\<open>..\<close>, so it is also true for
  \<^verbatim>\<open>{workspace}/7/reports/../src/main.py\<close>, which names the file of the second
  example and does not lie under any reports directory.
\<close>

theorem validate_write_path_lexical:
  assumes "normal_abs ws"
  shows "(validate_write_path True ws p = Inr True)
           = (isabs p \<and> (\<exists>i\<in>{1..50}. prefix (components ws @ [str_nat i, ''reports'']) (components p)))
       \<and> validate_write_path True ws (ws @ ''/7/reports/round1.jsonl'') = Inr True
       \<and> validate_write_path True ws (ws @ ''/7/src/main.py'') = Inr False
       \<and> validate_write_path True ws (ws @ ''/7/reports/../src/main.py'') = Inr True"
proof (intro conjI)
  have abs: "isabs ws" using assms by (rule normal_abs_isabs)
  show "(validate_write_path True ws p = Inr True)
           = (isabs p \<and> (\<exists>i\<in>{1..50}. prefix (components ws @ [str_nat i, ''reports'']) (components p)))"
  proof (cases "isabs p")
    case True
    then show ?thesis by (simp add: validate_write_path_abs [OF assms])
  next
    case False
    then show ?thesis by (simp add: validate_write_path_relative [OF abs])
  qed
  have seven: "(7::nat) \<in> {1..50}" by simp
  have c1: "components (ws @ ''/7/reports/round1.jsonl'') = components ws @ [''7'', ''reports'', ''round1.jsonl'']"
    using components_append [of ws "''7/reports/round1.jsonl''"] by (simp add: components_def)
  have c2: "components (ws @ ''/7/src/main.py'') = components ws @ [''7'', ''src'', ''main.py'']"
    using components_append [of ws "''7/src/main.py''"] by (simp add: components_def)
  have c3: "components (ws @ ''/7/reports/../src/main.py'') = components ws @ [''7'', ''reports'', ''..'', ''src'', ''main.py'']"
    using components_append [of ws "''7/reports/../src/main.py''"] by (simp add: components_def)
  show "validate_write_path True ws (ws @ ''/7/reports/round1.jsonl'') = Inr True"
    using seven by (simp only: validate_write_path_abs [OF assms isabs_append [OF abs]] c1)
      (auto simp: str_nat_7 intro!: bexI [of _ 7])
  show "validate_write_path True ws (ws @ ''/7/reports/../src/main.py'') = Inr True"
    using seven by (simp only: validate_write_path_abs [OF assms isabs_append [OF abs]] c3)
      (auto simp: str_nat_7 intro!: bexI [of _ 7])
  show "validate_write_path True ws (ws @ ''/7/src/main.py'') = Inr False"
    by (simp only: validate_write_path_abs [OF assms isabs_append [OF abs]] c2) simp
qed

lemma normal_default: "normal_abs ''/tmp/code_agent_workspace''"
  by (simp add: normal_abs_def components_def)

theorem validate_write_path_lexical_witness:
  "validate_write_path True ''/tmp/code_agent_workspace'' ''/tmp/code_agent_workspace/7/reports/../src/main.py'' = Inr True
   \<and> validate_write_path True ''/tmp/code_agent_workspace'' ''/tmp/code_agent_workspace/7/src/main.py'' = Inr False
   \<and> validate_write_path True ''/tmp/code_agent_workspace'' ''/tmp/code_agent_workspace/7/reports/round1.jsonl'' = Inr True"
  using validate_write_path_lexical [OF normal_default] by simp

section \<open>The write validator on relative paths\<close>

text \<open>
  Claim C6, where the code departs from it: with the restriction on and an absolute
  workspace directory, validate_write_path does not return false for a relative path
  (the claim's own example of a malformed path). \<open>commonpath\<close> raises ValueError at the
  first allowed path, validate_write_path has no handler, and write_file and
  delete_file call it before their \<^verbatim>\<open>try\<close>, so the exception leaves the tool.
\<close>

theorem relative_path_escapes_validator:
  assumes "isabs ws" "\<not> isabs p"
  shows "validate_write_path True ws p = Inl (Raise ValueError ''Can't mix absolute and relative paths'')
       \<and> write_file_guard True ws p = Inl (Raise ValueError ''Can't mix absolute and relative paths'')
       \<and> delete_file_guard True ws p = Inl (Raise ValueError ''Can't mix absolute and relative paths'')"
  using validate_write_path_relative [OF assms]
  by (simp add: write_file_guard_def delete_file_guard_def)

theorem relative_path_escapes_validator_witness:
  "validate_write_path True ''/tmp/code_agent_workspace'' ''notes.txt''
     = Inl (Raise ValueError ''Can't mix absolute and relative paths'')
   \<and> write_file_guard True ''/tmp/code_agent_workspace'' ''notes.txt''
     = Inl (Raise ValueError ''Can't mix absolute and relative paths'')
   \<and> delete_file_guard True ''/tmp/code_agent_workspace'' ''notes.txt''
     = Inl (Raise ValueError ''Can't mix absolute and relative paths'')"
  using relative_path_escapes_validator [of "''/tmp/code_agent_workspace''" "''notes.txt''"]
  by (simp add: isabs_def)

end
